theory Spec2Isabelle
  imports Main
begin

section \<open>Data model of the parser (src/mcp\_openapi/parser.py)\<close>

text \<open>
  A raw schema node of the OpenAPI document, as \<open>Config._process_schema\<close> reads it:
  the attributes \<open>ref\<close> (present only on reference objects, tested with
  \<open>hasattr(schema, "ref")\<close>), \<open>type\<close>, \<open>properties\<close> (an ordered dictionary,
  empty when the document declares none), \<open>items\<close>, \<open>allOf\<close>, \<open>anyOf\<close>,
  \<open>additionalProperties\<close> (only its truth value is read) and \<open>description\<close>.
  For a reference object the attributes other than \<open>ref\<close> are what attribute access
  on that object yields; the resolver itself looks the target up by name in
  \<open>api.components.schemas\<close>.
\<close>

datatype schema_node = SchemaNode
  (node_ref: "string option")
  (node_type: "string option")
  (node_properties: "(string \<times> schema_node) list")
  (node_items: "schema_node option")
  (node_allOf: "schema_node list")
  (node_anyOf: "schema_node list")
  (node_additionalProperties: bool)
  (node_description: "string option")

text \<open>\<open>SchemaProperty.type\<close> is \<open>str | list[str]\<close>.\<close>

datatype prop_type = TypeStr string | TypeList "string list"

datatype SchemaProperty = SchemaProperty
  (sp_name: string)
  (sp_type: prop_type)
  (sp_items: "SchemaProperty option")
  (sp_properties: "SchemaProperty list option")
  (sp_description: "string option")
  (sp_any_of: "SchemaProperty list option")
  (sp_all_of: "SchemaProperty list option")

datatype Schema = Schema
  (schema_name: string)
  (schema_properties: "SchemaProperty list option")

text \<open>The only exception the resolver raises itself: a failed dictionary lookup.\<close>

datatype error = KeyError string

type_synonym api = "string \<rightharpoonup> schema_node"

text \<open>
  The resolver shares one mutable \<open>visited\<close> set between all recursive calls, so
  every call returns the set it leaves behind together with its result.
\<close>

type_synonym resolver = "string set \<Rightarrow> schema_node \<Rightarrow> error + (Schema option \<times> string set)"

section \<open>Schema resolution: \<open>Config._process_schema\<close>\<close>

text \<open>\<open>ref.split("/")[-1]\<close>: the text after the last slash.\<close>

definition ref_name :: "string \<Rightarrow> string" where
  "ref_name r = rev (takeWhile (\<lambda>c. c \<noteq> CHR ''/'') (rev r))"

text \<open>\<open>t or "object"\<close> on an optional string: \<open>None\<close> and the empty string are falsy.\<close>

definition type_or_object :: "string option \<Rightarrow> string" where
  "type_or_object t = (case t of None \<Rightarrow> ''object'' | Some s \<Rightarrow> if s = [] then ''object'' else s)"

text \<open>\<open>if sub_schema.type: types.append(sub_schema.type)\<close>\<close>

definition add_type :: "string list \<Rightarrow> string option \<Rightarrow> string list" where
  "add_type types t = (case t of None \<Rightarrow> types | Some s \<Rightarrow> if s = [] then types else types @ [s])"

text \<open>\<open>all_properties.extend(ps)\<close> guarded by \<open>if ps:\<close> (neither \<open>None\<close> nor empty).\<close>

definition extend_opt :: "SchemaProperty list \<Rightarrow> SchemaProperty list option \<Rightarrow> SchemaProperty list" where
  "extend_opt acc ps = (case ps of None \<Rightarrow> acc | Some xs \<Rightarrow> acc @ xs)"

text \<open>\<open>nested_prop.name = nested_name\<close>\<close>

definition set_name :: "string \<Rightarrow> SchemaProperty \<Rightarrow> SchemaProperty" where
  "set_name n p = SchemaProperty n (sp_type p) (sp_items p) (sp_properties p)
                    (sp_description p) (sp_any_of p) (sp_all_of p)"

text \<open>
  The \<open>allOf\<close> loops (lines 237-252 for the schema itself, lines 383-398 for an object
  property; the two loop bodies are the same): every branch is resolved one level
  deeper; a resolved branch is kept as a \<open>SchemaProperty\<close> and its properties are
  appended to the merged list.
\<close>

fun allOf_loop :: "resolver \<Rightarrow> schema_node list \<Rightarrow> SchemaProperty list \<Rightarrow> SchemaProperty list
    \<Rightarrow> string set \<Rightarrow> error + (SchemaProperty list \<times> SchemaProperty list \<times> string set)" where
  "allOf_loop rec [] all_properties all_schemas visited =
     Inr (all_properties, all_schemas, visited)"
| "allOf_loop rec (sub_schema # rest) all_properties all_schemas visited =
     (case rec visited sub_schema of
        Inl e \<Rightarrow> Inl e
      | Inr (None, visited') \<Rightarrow> allOf_loop rec rest all_properties all_schemas visited'
      | Inr (Some sub_result, visited') \<Rightarrow>
          allOf_loop rec rest
            (extend_opt all_properties (schema_properties sub_result))
            (all_schemas @ [SchemaProperty (schema_name sub_result) (TypeStr ''object'') None
                              (schema_properties sub_result) (node_description sub_schema) None None])
            visited')"

text \<open>
  The \<open>anyOf\<close> loop of the schema itself (lines 274-281): the declared type of a branch
  is collected before the branch is resolved; the properties of the resolved branches
  are concatenated.
\<close>

fun anyOf_loop :: "resolver \<Rightarrow> schema_node list \<Rightarrow> string list \<Rightarrow> SchemaProperty list
    \<Rightarrow> string set \<Rightarrow> error + (string list \<times> SchemaProperty list \<times> string set)" where
  "anyOf_loop rec [] types any_of_properties visited = Inr (types, any_of_properties, visited)"
| "anyOf_loop rec (sub_schema # rest) types any_of_properties visited =
     (let types' = add_type types (node_type sub_schema)
      in case rec visited sub_schema of
           Inl e \<Rightarrow> Inl e
         | Inr (None, visited') \<Rightarrow> anyOf_loop rec rest types' any_of_properties visited'
         | Inr (Some sub_result, visited') \<Rightarrow>
             anyOf_loop rec rest types'
               (extend_opt any_of_properties (schema_properties sub_result)) visited')"

text \<open>
  The \<open>anyOf\<close> loops of an object property and of a nested property (lines 357-373 and
  415-431, the same body): every resolved branch is kept as a \<open>SchemaProperty\<close>.
\<close>

fun prop_anyOf_loop :: "resolver \<Rightarrow> schema_node list \<Rightarrow> string list \<Rightarrow> SchemaProperty list
    \<Rightarrow> string set \<Rightarrow> error + (string list \<times> SchemaProperty list \<times> string set)" where
  "prop_anyOf_loop rec [] types any_of_schemas visited = Inr (types, any_of_schemas, visited)"
| "prop_anyOf_loop rec (schema # rest) types any_of_schemas visited =
     (let types' = add_type types (node_type schema)
      in case rec visited schema of
           Inl e \<Rightarrow> Inl e
         | Inr (None, visited') \<Rightarrow> prop_anyOf_loop rec rest types' any_of_schemas visited'
         | Inr (Some result, visited') \<Rightarrow>
             prop_anyOf_loop rec rest types'
               (any_of_schemas @ [SchemaProperty (schema_name result)
                                    (TypeStr (type_or_object (node_type schema))) None
                                    (schema_properties result) (node_description schema) None None])
               visited')"

text \<open>
  The loop over the properties of a referenced array item (lines 311-331): an
  object-typed item property is resolved one level deeper.
\<close>

fun item_props_loop :: "resolver \<Rightarrow> (string \<times> schema_node) list \<Rightarrow> SchemaProperty list
    \<Rightarrow> string set \<Rightarrow> error + (SchemaProperty list \<times> string set)" where
  "item_props_loop rec [] item_properties visited = Inr (item_properties, visited)"
| "item_props_loop rec ((item_prop_name, item_prop_schema) # rest) item_properties visited =
     (let item_prop_type = type_or_object (node_type item_prop_schema)
      in if item_prop_type = ''object'' then
           (case rec visited item_prop_schema of
              Inl e \<Rightarrow> Inl e
            | Inr (nested_schema, visited') \<Rightarrow>
                item_props_loop rec rest
                  (item_properties @ [SchemaProperty item_prop_name (TypeStr item_prop_type) None
                     (case nested_schema of None \<Rightarrow> None | Some ns \<Rightarrow> schema_properties ns)
                     (node_description item_prop_schema) None None])
                  visited')
         else item_props_loop rec rest
                (item_properties @ [SchemaProperty item_prop_name (TypeStr item_prop_type) None None
                   (node_description item_prop_schema) None None])
                visited)"

text \<open>
  The loop over the declared properties of a plain nested object (lines 406-446).
  A child with \<open>anyOf\<close> becomes a union property; any other child is resolved one
  level deeper and, when the result has a non-empty property list, its first
  property is renamed to the child's name and appended.
\<close>

fun nested_props_loop :: "resolver \<Rightarrow> (string \<times> schema_node) list \<Rightarrow> SchemaProperty list
    \<Rightarrow> string set \<Rightarrow> error + (SchemaProperty list \<times> string set)" where
  "nested_props_loop rec [] nested_properties visited = Inr (nested_properties, visited)"
| "nested_props_loop rec ((nested_name, nested_schema) # rest) nested_properties visited =
     (if node_anyOf nested_schema \<noteq> [] then
        (case prop_anyOf_loop rec (node_anyOf nested_schema) [] [] visited of
           Inl e \<Rightarrow> Inl e
         | Inr (types, any_of_schemas, visited') \<Rightarrow>
             nested_props_loop rec rest
               (nested_properties @ [SchemaProperty nested_name
                  (if types \<noteq> [] then TypeList types else TypeStr ''object'') None None
                  (node_description nested_schema) (Some any_of_schemas) None])
               visited')
      else
        (case rec visited nested_schema of
           Inl e \<Rightarrow> Inl e
         | Inr (Some (Schema n (Some (nested_prop # others))), visited') \<Rightarrow>
             nested_props_loop rec rest
               (nested_properties @ [set_name nested_name nested_prop]) visited'
         | Inr (_, visited') \<Rightarrow> nested_props_loop rec rest nested_properties visited'))"

text \<open>The body of the loop over \<open>resolved_schema.properties\<close> (lines 298-450).\<close>

definition process_property :: "api \<Rightarrow> resolver \<Rightarrow> string \<Rightarrow> schema_node \<Rightarrow> string set
    \<Rightarrow> error + (SchemaProperty \<times> string set)" where
  "process_property api rec prop_name prop_schema visited =
     (let prop_type = type_or_object (node_type prop_schema);
          description = node_description prop_schema
      in
      if prop_type = ''array'' \<and> node_items prop_schema \<noteq> None then
        (case node_items prop_schema of
           None \<Rightarrow> Inr (SchemaProperty prop_name (TypeStr prop_type) None None description None None, visited)
         | Some item_schema \<Rightarrow>
            (case node_ref item_schema of
               Some item_ref \<Rightarrow>
                 (let item_name = ref_name item_ref
                  in case api item_name of
                       None \<Rightarrow> Inl (KeyError item_name)
                     | Some resolved_item_schema \<Rightarrow>
                         if node_type resolved_item_schema = Some ''object'' then
                           (case item_props_loop rec (node_properties resolved_item_schema) [] visited of
                              Inl e \<Rightarrow> Inl e
                            | Inr (item_properties, visited') \<Rightarrow>
                                Inr (SchemaProperty prop_name (TypeStr prop_type)
                                       (Some (SchemaProperty item_name (TypeStr ''object'') None
                                                (Some item_properties) (node_description item_schema)
                                                None None))
                                       None description None None, visited'))
                         else Inr (SchemaProperty prop_name (TypeStr prop_type) None None
                                     description None None, visited))
             | None \<Rightarrow>
                 Inr (SchemaProperty prop_name (TypeStr prop_type)
                        (Some (SchemaProperty ''item''
                                 (TypeStr (type_or_object (node_type item_schema))) None None
                                 (node_description item_schema) None None))
                        None description None None, visited)))
      else if prop_type = ''object'' then
        (if node_ref prop_schema \<noteq> None then
           (case rec visited prop_schema of
              Inl e \<Rightarrow> Inl e
            | Inr (nested_schema, visited') \<Rightarrow>
                Inr (SchemaProperty prop_name (TypeStr prop_type) None
                       (case nested_schema of None \<Rightarrow> None | Some ns \<Rightarrow> schema_properties ns)
                       description None None, visited'))
         else if node_anyOf prop_schema \<noteq> [] then
           (case prop_anyOf_loop rec (node_anyOf prop_schema) [] [] visited of
              Inl e \<Rightarrow> Inl e
            | Inr (types, any_of_schemas, visited') \<Rightarrow>
                Inr (SchemaProperty prop_name
                       (if types \<noteq> [] then TypeList types else TypeStr ''object'') None None
                       description (Some any_of_schemas) None, visited'))
         else if node_allOf prop_schema \<noteq> [] then
           (case allOf_loop rec (node_allOf prop_schema) [] [] visited of
              Inl e \<Rightarrow> Inl e
            | Inr (all_properties, all_schemas, visited') \<Rightarrow>
                if all_properties \<noteq> [] then
                  Inr (SchemaProperty prop_name (TypeStr prop_type) None (Some all_properties)
                         description None (Some all_schemas), visited')
                else Inr (SchemaProperty prop_name (TypeStr prop_type) None None
                            description None None, visited'))
         else if node_additionalProperties prop_schema then
           Inr (SchemaProperty prop_name (TypeStr prop_type) None None description None None, visited)
         else
           (case nested_props_loop rec (node_properties prop_schema) [] visited of
              Inl e \<Rightarrow> Inl e
            | Inr (nested_properties, visited') \<Rightarrow>
                Inr (SchemaProperty prop_name (TypeStr prop_type) None (Some nested_properties)
                       description None None, visited')))
      else Inr (SchemaProperty prop_name (TypeStr prop_type) None None description None None, visited))"

text \<open>The loop over \<open>resolved_schema.properties.items()\<close> (line 297).\<close>

fun properties_loop :: "api \<Rightarrow> resolver \<Rightarrow> (string \<times> schema_node) list \<Rightarrow> SchemaProperty list
    \<Rightarrow> string set \<Rightarrow> error + (SchemaProperty list \<times> string set)" where
  "properties_loop api rec [] properties visited = Inr (properties, visited)"
| "properties_loop api rec ((prop_name, prop_schema) # rest) properties visited =
     (case process_property api rec prop_name prop_schema visited of
        Inl e \<Rightarrow> Inl e
      | Inr (prop, visited') \<Rightarrow> properties_loop api rec rest (properties @ [prop]) visited')"

text \<open>
  Lines 233-479: the \<open>if\<close>/\<open>elif\<close> chain on the resolved schema, with \<open>rec\<close> standing
  for the recursive call \<open>cls._process_schema(_, api, depth + 1, max_depth, visited)\<close>.
\<close>

definition process_resolved :: "api \<Rightarrow> resolver \<Rightarrow> string \<Rightarrow> schema_node \<Rightarrow> string set
    \<Rightarrow> error + (Schema option \<times> string set)" where
  "process_resolved api rec name resolved_schema visited =
     (if node_allOf resolved_schema \<noteq> [] then
        (case allOf_loop rec (node_allOf resolved_schema) [] [] visited of
           Inl e \<Rightarrow> Inl e
         | Inr (all_properties, all_schemas, visited') \<Rightarrow>
             if all_properties \<noteq> [] then
               Inr (Some (Schema name
                      (Some [SchemaProperty ''merged'' (TypeStr ''object'') None (Some all_properties)
                               (node_description resolved_schema) None (Some all_schemas)])),
                    visited')
             else Inr (None, visited'))
      else if node_anyOf resolved_schema \<noteq> [] then
        (case anyOf_loop rec (node_anyOf resolved_schema) [] [] visited of
           Inl e \<Rightarrow> Inl e
         | Inr (types, any_of_properties, visited') \<Rightarrow>
             Inr (Some (Schema name
                    (Some [SchemaProperty ''any_of''
                             (if types \<noteq> [] then TypeList types else TypeStr ''object'') None None
                             (node_description resolved_schema)
                             (if any_of_properties \<noteq> [] then Some any_of_properties else None)
                             None])),
                  visited'))
      else if node_properties resolved_schema \<noteq> [] then
        (case properties_loop api rec (node_properties resolved_schema) [] visited of
           Inl e \<Rightarrow> Inl e
         | Inr (properties, visited') \<Rightarrow> Inr (Some (Schema name (Some properties)), visited'))
      else if node_type resolved_schema = Some ''array'' then
        (case node_items resolved_schema of
           None \<Rightarrow> Inr (Some (Schema name (Some [])), visited)
         | Some items \<Rightarrow>
            (case rec visited items of
               Inl e \<Rightarrow> Inl e
             | Inr (None, visited') \<Rightarrow> Inr (Some (Schema name (Some [])), visited')
             | Inr (Some processed_items, visited') \<Rightarrow>
                 Inr (Some (Schema name
                        (Some [SchemaProperty ''inline'' (TypeStr ''array'')
                                 (Some (SchemaProperty ''item''
                                          (TypeStr (type_or_object (node_type items))) None
                                          (schema_properties processed_items)
                                          (node_description items) None None))
                                 None (node_description resolved_schema) None None])),
                      visited')))
      else Inr (Some (Schema name (Some [])), visited))"

text \<open>
  Lines 217-231: the cycle check on the shared \<open>visited\<close> set and the lookup of a
  reference in \<open>api.components.schemas\<close>. \<open>Inr None\<close> is the early
  \<open>return None\<close> of a reference that is already in \<open>visited\<close>; otherwise the
  schema name, the resolved schema and the updated set are returned. A name missing
  from the components raises \<open>KeyError\<close>.
\<close>

definition enter_schema :: "api \<Rightarrow> string set \<Rightarrow> schema_node
    \<Rightarrow> error + (string \<times> schema_node \<times> string set) option" where
  "enter_schema api visited schema =
     (case node_ref schema of
        Some schema_ref \<Rightarrow>
          if schema_ref \<in> visited then Inr None
          else
            (case api (ref_name schema_ref) of
               None \<Rightarrow> Inl (KeyError (ref_name schema_ref))
             | Some resolved_schema \<Rightarrow>
                 Inr (Some (ref_name schema_ref, resolved_schema, insert schema_ref visited)))
      | None \<Rightarrow> Inr (Some (''inline'', schema, visited)))"

text \<open>
  \<open>Config._process_schema(schema, api, depth, max_depth, visited)\<close>: the depth guard
  (lines 212-215), then the cycle check and lookup, then the chain above. Every
  recursive call is made at \<open>depth + 1\<close>, which is what makes the recursion end.
\<close>

function process_schema :: "api \<Rightarrow> nat \<Rightarrow> nat \<Rightarrow> string set \<Rightarrow> schema_node
    \<Rightarrow> error + (Schema option \<times> string set)" where
  "process_schema api depth max_depth visited schema =
     (if depth \<ge> max_depth then Inr (None, visited)
      else
        (case enter_schema api visited schema of
           Inl e \<Rightarrow> Inl e
         | Inr None \<Rightarrow> Inr (None, visited)
         | Inr (Some (name, resolved_schema, visited')) \<Rightarrow>
             process_resolved api (\<lambda>v s. process_schema api (depth + 1) max_depth v s)
               name resolved_schema visited'))"
  by pat_completeness auto
termination
  by (relation "measure (\<lambda>(api, depth, max_depth, visited, schema). max_depth - depth)") auto

declare process_schema.simps [simp del]

text \<open>
  The call the rest of the parser makes, \<open>cls._process_schema(schema, api)\<close>, with the
  defaults \<open>depth=0\<close>, \<open>max_depth=10\<close> and a fresh \<open>visited\<close> set.
\<close>

definition resolve :: "api \<Rightarrow> schema_node \<Rightarrow> error + (Schema option \<times> string set)" where
  "resolve api schema = process_schema api 0 10 {} schema"

section \<open>Operation parameters: \<open>Config._process_operation\<close>, lines 485-506\<close>

text \<open>Values of Python's \<open>Any\<close> that a schema's \<open>enum\<close> and \<open>default\<close> hold.\<close>

datatype py_value = PyNone | PyBool bool | PyInt int | PyStr string | PyList "py_value list"
  | PyDict "(string \<times> py_value) list"

text \<open>Python's truth value, which \<open>if param.schema_.default:\<close> tests.\<close>

fun truthy :: "py_value \<Rightarrow> bool" where
  "truthy PyNone = False"
| "truthy (PyBool b) = b"
| "truthy (PyInt i) = (i \<noteq> 0)"
| "truthy (PyStr s) = (s \<noteq> [])"
| "truthy (PyList xs) = (xs \<noteq> [])"
| "truthy (PyDict kvs) = (kvs \<noteq> [])"

text \<open>
  What the loop reads of a parameter of the document: the attributes fetched with
  \<open>getattr\<close> (absent ones are \<open>None\<close>) and \<open>param.schema_.type\<close>, \<open>.enum\<close>,
  \<open>.default\<close> of a parameter that has a schema.
\<close>

record raw_param =
  rp_name :: string
  rp_in :: string
  rp_required :: "bool option"
  rp_description :: "string option"
  rp_deprecated :: "bool option"
  rp_allowEmptyValue :: "bool option"
  rp_style :: "string option"
  rp_explode :: "bool option"
  rp_allowReserved :: "bool option"
  rp_schema_type :: "string option"
  rp_schema_enum :: "py_value list option"
  rp_schema_default :: "py_value option"

text \<open>The \<open>Parameter\<close> model (lines 38-51).\<close>

record Parameter =
  p_name :: string
  p_in :: string
  p_required :: bool
  p_description :: "string option"
  p_deprecated :: "bool option"
  p_allowEmptyValue :: "bool option"
  p_style :: "string option"
  p_explode :: "bool option"
  p_allowReserved :: "bool option"
  p_type :: "string option"
  p_enum :: "py_value list option"
  p_default :: "py_value option"

text \<open>\<open>if param.schema_.enum:\<close> holds for a list that is neither \<open>None\<close> nor empty.\<close>

definition enum_truthy :: "py_value list option \<Rightarrow> bool" where
  "enum_truthy e = (case e of None \<Rightarrow> False | Some vs \<Rightarrow> vs \<noteq> [])"

text \<open>\<open>if param.schema_.default:\<close> holds for a value that is neither \<open>None\<close> nor falsy.\<close>

definition default_truthy :: "py_value option \<Rightarrow> bool" where
  "default_truthy d = (case d of None \<Rightarrow> False | Some v \<Rightarrow> truthy v)"

text \<open>
  One iteration of the loop over \<open>operation.parameters\<close>: the dictionary
  \<open>param_dict\<close> and the \<open>Parameter\<close> built from it; a key that is not set leaves the
  model's default (\<open>None\<close>).
\<close>

definition process_parameter :: "raw_param \<Rightarrow> Parameter" where
  "process_parameter param =
     \<lparr> p_name = rp_name param,
       p_in = rp_in param,
       p_required = (if enum_truthy (rp_schema_enum param) then True
                     else (case rp_required param of None \<Rightarrow> False | Some b \<Rightarrow> b)),
       p_description = rp_description param,
       p_deprecated = rp_deprecated param,
       p_allowEmptyValue = rp_allowEmptyValue param,
       p_style = rp_style param,
       p_explode = rp_explode param,
       p_allowReserved = rp_allowReserved param,
       p_type = rp_schema_type param,
       p_enum = (if enum_truthy (rp_schema_enum param) then rp_schema_enum param else None),
       p_default = (if default_truthy (rp_schema_default param)
                    then rp_schema_default param else None) \<rparr>"

section \<open>The loops, read as "resolve every branch in order, then combine"\<close>

text \<open>
  The results of resolving a list of schema nodes from left to right, each call
  starting from the \<open>visited\<close> set the previous one left; the first error ends the
  run, as the exception would.
\<close>

fun resolve_each :: "resolver \<Rightarrow> schema_node list \<Rightarrow> string set
    \<Rightarrow> error + (Schema option list \<times> string set)" where
  "resolve_each rec [] visited = Inr ([], visited)"
| "resolve_each rec (s # rest) visited =
     (case rec visited s of
        Inl e \<Rightarrow> Inl e
      | Inr (r, visited') \<Rightarrow>
          (case resolve_each rec rest visited' of
             Inl e \<Rightarrow> Inl e
           | Inr (rs, visited'') \<Rightarrow> Inr (r # rs, visited'')))"

text \<open>The properties a resolved branch yields: none for \<open>None\<close> or a missing list.\<close>

definition branch_props :: "Schema option \<Rightarrow> SchemaProperty list" where
  "branch_props r = (case r of None \<Rightarrow> [] | Some sch \<Rightarrow>
      (case schema_properties sch of None \<Rightarrow> [] | Some ps \<Rightarrow> ps))"

text \<open>The \<open>SchemaProperty\<close> an \<open>allOf\<close> loop keeps for a branch that resolved.\<close>

definition kept_branch :: "schema_node \<Rightarrow> Schema option \<Rightarrow> SchemaProperty list" where
  "kept_branch s r = (case r of None \<Rightarrow> [] | Some sch \<Rightarrow>
      [SchemaProperty (schema_name sch) (TypeStr ''object'') None (schema_properties sch)
         (node_description s) None None])"

text \<open>The declared (non-empty) types of a list of branches, in order.\<close>

definition declared_types :: "schema_node list \<Rightarrow> string list" where
  "declared_types branches =
     concat (map (\<lambda>s. case node_type s of None \<Rightarrow> [] | Some t \<Rightarrow> if t = [] then [] else [t]) branches)"

text \<open>
  The type of the synthetic \<open>any_of\<close> property: the declared types of the branches,
  or \<open>"object"\<close> when no branch declares one.
\<close>

definition union_type :: "schema_node list \<Rightarrow> prop_type" where
  "union_type branches =
     (if declared_types branches \<noteq> [] then TypeList (declared_types branches)
      else TypeStr ''object'')"

text \<open>
  What a nested child contributes: the first property of its resolved schema, carrying
  the child's name, or nothing.
\<close>

definition first_renamed :: "string \<Rightarrow> Schema option \<Rightarrow> SchemaProperty list" where
  "first_renamed n r = (case r of None \<Rightarrow> [] | Some sch \<Rightarrow>
      (case schema_properties sch of None \<Rightarrow> [] | Some [] \<Rightarrow> [] | Some (p # others) \<Rightarrow> [set_name n p]))"

section \<open>Invariants of the shared \<open>visited\<close> set\<close>



section \<open>Tool descriptors and argument partition (\<open>mcp_openapi/tools.py\<close>)\<close>

text \<open>
  Modelled from the spec: \<open>ToolParameter\<close> of \<open>mcp_openapi/tools.py\<close>, which is not
  among the sources. The fields are those of the spec's data model (section 3): the
  flattened name, the type tag, the description, the default, the original body field
  and the marker of a parameter that comes from the request body.
\<close>

record ToolParameter =
  tp_name :: string
  tp_type :: string
  tp_description :: string
  tp_default :: "py_value option"
  tp_request_body_field :: "string option"
  tp_in_body :: bool

text \<open>\<open>", ".join(options)\<close>\<close>

fun join_comma :: "string list \<Rightarrow> string" where
  "join_comma [] = []"
| "join_comma [x] = x"
| "join_comma (x # y # ys) = x @ '', '' @ join_comma (y # ys)"

text \<open>
  Modelled from the spec: the truncation of section 4.2, "truncated to a fixed maximum
  length (100 characters) with a trailing ellipsis if truncated" (the constant
  \<open>MAX_ENUM_DESCRIPTION_LENGTH\<close> that the test names); the function is in
  \<open>mcp_openapi/tools.py\<close>.
\<close>

definition truncate_description :: "string \<Rightarrow> string" where
  "truncate_description d = (if length d > 100 then take 97 d @ ''...'' else d)"

text \<open>
  Modelled from the spec: the description of an enum parameter built by
  \<open>Tool.from_operation\<close> (\<open>mcp_openapi/tools.py\<close>): the original description extended
  with \<open>" Options: v1, v2, ..."\<close>, then truncated. How an enum value is written out is
  left to the parameter \<open>render\<close>.
\<close>

definition enum_description :: "(py_value \<Rightarrow> string) \<Rightarrow> string \<Rightarrow> py_value list \<Rightarrow> string" where
  "enum_description render description enum =
     truncate_description (description @ '' Options: '' @ join_comma (map render enum))"

text \<open>
  Modelled from the spec: the description \<open>Tool.from_operation\<close> gives to the
  \<open>ToolParameter\<close> of an operation parameter; a parameter without description has
  the empty text.
\<close>

definition parameter_description :: "(py_value \<Rightarrow> string) \<Rightarrow> Parameter \<Rightarrow> string" where
  "parameter_description render p =
     (let description = (case p_description p of None \<Rightarrow> [] | Some d \<Rightarrow> d)
      in case p_enum p of
           None \<Rightarrow> description
         | Some enum \<Rightarrow> if enum = [] then description
                        else enum_description render description enum)"

text \<open>
  Modelled from the spec: the array marker rule of section 4.2 (in
  \<open>Tool.from_operation\<close>): a name that ends with \<open>[]\<close> loses the marker and gets an
  \<open>s\<close>, \<open>array_param[]\<close> becomes \<open>array_params\<close>.
\<close>

definition has_array_marker :: "string \<Rightarrow> bool" where
  "has_array_marker n = (2 \<le> length n \<and> drop (length n - 2) n = ''[]'')"

definition flattened_name :: "string \<Rightarrow> string" where
  "flattened_name n = (if has_array_marker n then take (length n - 2) n @ ''s'' else n)"

text \<open>
  Modelled from the spec: the type tags of section 4.2 (in \<open>Tool.from_operation\<close>):
  \<open>string\<close> to \<open>str\<close>, \<open>integer\<close> to \<open>int\<close>, \<open>number\<close> to \<open>float\<close>, \<open>boolean\<close> to
  \<open>bool\<close>, \<open>object\<close> for the rest, and \<open>list[T]\<close> for a name with the array marker.
\<close>

definition primitive_type :: "string option \<Rightarrow> string" where
  "primitive_type t =
     (if t = Some ''string'' then ''str''
      else if t = Some ''integer'' then ''int''
      else if t = Some ''number'' then ''float''
      else if t = Some ''boolean'' then ''bool''
      else ''object'')"

definition parameter_type :: "Parameter \<Rightarrow> string" where
  "parameter_type p =
     (if has_array_marker (p_name p) then ''list['' @ primitive_type (p_type p) @ '']''
      else primitive_type (p_type p))"

text \<open>
  Modelled from the spec: "each Parameter becomes one ToolParameter" (section 4.2, in
  \<open>Tool.from_operation\<close>).
\<close>

definition query_tool_parameter :: "(py_value \<Rightarrow> string) \<Rightarrow> Parameter \<Rightarrow> ToolParameter" where
  "query_tool_parameter render p =
     \<lparr> tp_name = flattened_name (p_name p),
       tp_type = parameter_type p,
       tp_description = parameter_description render p,
       tp_default = p_default p,
       tp_request_body_field = None,
       tp_in_body = False \<rparr>"











section \<open>Concrete documents and parameters\<close>

definition string_node :: schema_node where
  "string_node = SchemaNode None (Some ''string'') [] None [] [] False None"

text \<open>\<open>{type: object, properties: {id: {type: string}}}\<close>\<close>

definition leaf_object :: schema_node where
  "leaf_object = SchemaNode None (Some ''object'') [(''id'', string_node)] None [] [] False None"

text \<open>\<open>{type: array, items: ...}\<close>, and a leaf below \<open>n\<close> such arrays.\<close>

definition array_of :: "schema_node option \<Rightarrow> schema_node" where
  "array_of items = SchemaNode None (Some ''array'') [] items [] [] False None"

fun nested_arrays :: "nat \<Rightarrow> schema_node \<Rightarrow> schema_node" where
  "nested_arrays 0 s = s"
| "nested_arrays (Suc n) s = array_of (Some (nested_arrays n s))"







text \<open>
  A component \<open>Address\<close> with one string property, and an order that refers to it
  twice, from two sibling properties:
  \<^verbatim>\<open>
  components: {schemas: {Address: {type: object, properties: {street: {type: string}}}}}
  Order: {type: object, properties: {billing:  {$ref: '#/components/schemas/Address'},
                                     shipping: {$ref: '#/components/schemas/Address'}}}
  \<close>
\<close>

definition address :: schema_node where
  "address = SchemaNode None (Some ''object'') [(''street'', string_node)] None [] [] False None"

definition address_ref :: schema_node where
  "address_ref = SchemaNode (Some ''#/components/schemas/Address'') (Some ''object'') [] None [] [] False None"

definition order :: schema_node where
  "order = SchemaNode None (Some ''object'')
             [(''billing'', address_ref), (''shipping'', address_ref)] None [] [] False None"

definition order_api :: api where
  "order_api = [''Address'' \<mapsto> address]"

text \<open>Two object schemas with the disjoint property sets \<open>{a}\<close> and \<open>{b}\<close>, and their \<open>allOf\<close>.\<close>

definition object_a :: schema_node where
  "object_a = SchemaNode None (Some ''object'') [(''a'', string_node)] None [] [] False (Some ''first'')"

definition object_b :: schema_node where
  "object_b = SchemaNode None (Some ''object'') [(''b'', string_node)] None [] [] False None"

definition all_of_ab :: schema_node where
  "all_of_ab = SchemaNode None None [] None [object_a, object_b] [] False (Some ''both'')"

text \<open>An \<open>allOf\<close> of two objects without properties.\<close>

definition empty_object :: schema_node where
  "empty_object = SchemaNode None (Some ''object'') [] None [] [] False None"

definition all_of_empty :: schema_node where
  "all_of_empty = SchemaNode None None [] None [empty_object, empty_object] [] False None"

text \<open>\<open>anyOf: [object_a, {type: string}]\<close>, and an \<open>anyOf\<close> whose only branch declares nothing.\<close>

definition any_of_object_or_string :: schema_node where
  "any_of_object_or_string =
     SchemaNode None None [] None [] [object_a, string_node] False (Some ''either'')"

definition untyped_node :: schema_node where
  "untyped_node = SchemaNode None None [] None [] [] False None"

definition any_of_untyped :: schema_node where
  "any_of_untyped = SchemaNode None None [] None [] [untyped_node] False None"

text \<open>
  An object property \<open>parent\<close> with three nested children: an object with the two
  properties \<open>x\<close> and \<open>y\<close>, an object without properties, and a string.
\<close>

definition child_two :: schema_node where
  "child_two = SchemaNode None (Some ''object'') [(''x'', string_node), (''y'', string_node)]
                 None [] [] False None"

definition parent_schema :: schema_node where
  "parent_schema = SchemaNode None (Some ''object'')
     [(''first'', child_two), (''second'', empty_object), (''third'', string_node)]
     None [] [] False None"

text \<open>
  The query parameter \<open>array_param[]\<close> of the test suite's operation, as a document
  would declare it: \<open>schema: {type: array, default: []}\<close>.
\<close>

definition array_param :: raw_param where
  "array_param = \<lparr> rp_name = ''array_param[]'', rp_in = ''query'', rp_required = None,
     rp_description = Some ''An array parameter'', rp_deprecated = None,
     rp_allowEmptyValue = None, rp_style = None, rp_explode = None, rp_allowReserved = None,
     rp_schema_type = Some ''array'', rp_schema_enum = None,
     rp_schema_default = Some (PyList []) \<rparr>"

text \<open>The enum parameter of the test \<open>test_tool_from_operation_with_long_enum\<close>.\<close>

definition long_enum :: "py_value list" where
  "long_enum = map PyStr [''option0'', ''option1'', ''option2'', ''option3'', ''option4'',
     ''option5'', ''option6'', ''option7'', ''option8'', ''option9'', ''option10'', ''option11'',
     ''option12'', ''option13'', ''option14'', ''option15'', ''option16'', ''option17'',
     ''option18'', ''option19'']"

definition long_enum_param :: raw_param where
  "long_enum_param = \<lparr> rp_name = ''long_enum_param'', rp_in = ''query'', rp_required = None,
     rp_description = Some ''A parameter with many enum options'', rp_deprecated = None,
     rp_allowEmptyValue = None, rp_style = None, rp_explode = None, rp_allowReserved = None,
     rp_schema_type = Some ''string'', rp_schema_enum = Some long_enum,
     rp_schema_default = Some (PyStr ''option0'') \<rparr>"

text \<open>The text of a string value; other values are not used in the examples.\<close>

fun string_text :: "py_value \<Rightarrow> string" where
  "string_text (PyStr s) = s"
| "string_text v = []"



section \<open>Properties of the resolver\<close>

lemma process_schema_guard: "max_depth \<le> depth \<Longrightarrow> process_schema api depth max_depth visited schema = Inr (None, visited)"
  by (simp add: process_schema.simps)

lemma process_schema_step: "depth < max_depth \<Longrightarrow> process_schema api depth max_depth visited schema =
        (case enter_schema api visited schema of
           Inl e \<Rightarrow> Inl e
         | Inr None \<Rightarrow> Inr (None, visited)
         | Inr (Some (name, resolved_schema, visited')) \<Rightarrow>
             process_resolved api (process_schema api (depth + 1) max_depth)
               name resolved_schema visited')"
  by (simp add: process_schema.simps)

lemmas eval_defs = resolve_def process_schema_guard process_schema_step enter_schema_def
  process_resolved_def process_property_def type_or_object_def ref_name_def add_type_def
  extend_opt_def set_name_def

lemma process_resolved_not_None:
  "node_allOf resolved = [] \<Longrightarrow> process_resolved api rec name resolved v \<noteq> Inr (None, v')"
  by (auto simp: process_resolved_def split: sum.splits option.splits prod.splits)


lemma branch_props_simps:
  "branch_props None = []"
  "branch_props (Some (Schema n None)) = []"
  "branch_props (Some (Schema n (Some ps))) = ps"
  by (simp_all add: branch_props_def)

lemma kept_branch_simps:
  "kept_branch s None = []"
  "kept_branch s (Some sch) = [SchemaProperty (schema_name sch) (TypeStr ''object'') None
     (schema_properties sch) (node_description s) None None]"
  by (simp_all add: kept_branch_def)

lemma first_renamed_simps:
  "first_renamed n None = []"
  "first_renamed n (Some (Schema nm None)) = []"
  "first_renamed n (Some (Schema nm (Some []))) = []"
  "first_renamed n (Some (Schema nm (Some (p # others)))) = [set_name n p]"
  by (simp_all add: first_renamed_def)

lemma extend_opt_branch_props: "extend_opt acc (schema_properties sch) = acc @ branch_props (Some sch)"
  by (simp add: extend_opt_def branch_props_def split: option.splits)

lemma allOf_loop_resolve_each:
  "allOf_loop rec xs ap als v =
     (case resolve_each rec xs v of
        Inl e \<Rightarrow> Inl e
      | Inr (rs, v') \<Rightarrow>
          Inr (ap @ concat (map branch_props rs), als @ concat (map2 kept_branch xs rs), v'))"
proof (induction xs arbitrary: ap als v)
  case Nil
  then show ?case by simp
next
  case (Cons s rest)
  show ?case
  proof (cases "rec v s")
    case (Inl e)
    then show ?thesis by simp
  next
    case (Inr p)
    obtain r v1 where p: "p = (r, v1)" by (cases p)
    show ?thesis
    proof (cases r)
      case None
      with Inr p show ?thesis
        by (simp add: Cons.IH branch_props_simps kept_branch_simps split: sum.splits)
    next
      case (Some sch)
      with Inr p show ?thesis
        by (simp add: Cons.IH extend_opt_branch_props kept_branch_simps split: sum.splits)
    qed
  qed
qed

lemma add_type_declared: "add_type ts (node_type s) @ declared_types xs = ts @ declared_types (s # xs)"
  by (simp add: declared_types_def add_type_def split: option.splits)

lemma anyOf_loop_resolve_each:
  "anyOf_loop rec xs ts ps v =
     (case resolve_each rec xs v of
        Inl e \<Rightarrow> Inl e
      | Inr (rs, v') \<Rightarrow> Inr (ts @ declared_types xs, ps @ concat (map branch_props rs), v'))"
proof (induction xs arbitrary: ts ps v)
  case Nil
  then show ?case by (simp add: declared_types_def)
next
  case (Cons s rest)
  show ?case
  proof (cases "rec v s")
    case (Inl e)
    then show ?thesis by simp
  next
    case (Inr p)
    obtain r v1 where p: "p = (r, v1)" by (cases p)
    show ?thesis
    proof (cases r)
      case None
      with Inr p show ?thesis
        by (simp add: Cons.IH branch_props_simps add_type_declared split: sum.splits)
    next
      case (Some sch)
      with Inr p show ?thesis
        by (simp add: Cons.IH extend_opt_branch_props add_type_declared split: sum.splits)
    qed
  qed
qed

lemma nested_props_loop_child:
  assumes "node_anyOf s = []"
  shows "nested_props_loop rec ((n, s) # rest) acc v =
     (case rec v s of
        Inl e \<Rightarrow> Inl e
      | Inr (r, v') \<Rightarrow> nested_props_loop rec rest (acc @ first_renamed n r) v')"
proof (cases "rec v s")
  case (Inl e)
  with assms show ?thesis by simp
next
  case (Inr p)
  obtain r v1 where p: "p = (r, v1)" by (cases p)
  show ?thesis
  proof (cases r)
    case None
    with Inr p assms show ?thesis by (simp add: first_renamed_simps)
  next
    case (Some sch)
    obtain nm ps where sch: "sch = Schema nm ps" by (cases sch)
    show ?thesis
    proof (cases ps)
      case None
      with Some sch Inr p assms show ?thesis by (simp add: first_renamed_simps)
    next
      case (Some l)
      with \<open>r = Some sch\<close> sch Inr p assms show ?thesis
        by (cases l) (simp_all add: first_renamed_simps)
    qed
  qed
qed

lemma nested_props_loop_resolve_each:
  assumes "\<forall>c \<in> set children. node_anyOf (snd c) = []"
  shows "nested_props_loop rec children acc v =
     (case resolve_each rec (map snd children) v of
        Inl e \<Rightarrow> Inl e
      | Inr (rs, v') \<Rightarrow> Inr (acc @ concat (map2 first_renamed (map fst children) rs), v'))"
  using assms
proof (induction children arbitrary: acc v)
  case Nil
  then show ?case by simp
next
  case (Cons c rest)
  obtain n s where c: "c = (n, s)" by (cases c)
  from Cons.prems c have noany: "node_anyOf s = []" and rest: "\<forall>c \<in> set rest. node_anyOf (snd c) = []"
    by auto
  note IH = Cons.IH [OF rest]
  show ?case
  proof (cases "rec v s")
    case (Inl e)
    with c noany show ?thesis by simp
  next
    case (Inr p)
    obtain r v1 where p: "p = (r, v1)" by (cases p)
    show ?thesis
    proof (cases r)
      case None
      with Inr p c noany show ?thesis
        by (simp add: IH first_renamed_simps split: sum.splits)
    next
      case (Some sch)
      obtain nm ps where sch: "sch = Schema nm ps" by (cases sch)
      show ?thesis
      proof (cases ps)
        case None
        with Some sch Inr p c noany show ?thesis
          by (simp add: IH first_renamed_simps split: sum.splits)
      next
        case (Some l)
        with \<open>r = Some sch\<close> sch Inr p c noany show ?thesis
          by (cases l) (simp_all add: IH first_renamed_simps split: sum.splits)
      qed
    qed
  qed
qed

lemma nested_props_loop_acc:
  "nested_props_loop rec xs acc v =
     (case nested_props_loop rec xs [] v of
        Inl e \<Rightarrow> Inl e
      | Inr (ps, v') \<Rightarrow> Inr (acc @ ps, v'))"
proof (induction xs arbitrary: acc v)
  case Nil
  then show ?case by simp
next
  case (Cons c rest)
  obtain n s where c: "c = (n, s)" by (cases c)
  have step: "nested_props_loop rec rest (acc @ ps) w =
      (case nested_props_loop rec rest ps w of
         Inl e \<Rightarrow> Inl e
       | Inr (qs, v') \<Rightarrow> Inr (acc @ qs, v'))" for ps w
    using Cons.IH [of "acc @ ps" w] Cons.IH [of ps w]
    by (auto split: sum.splits)
  show ?case
  proof (cases "node_anyOf s = []")
    case False
    with c show ?thesis
      using step by (simp split: sum.splits prod.splits)
  next
    case True
    show ?thesis
      unfolding c nested_props_loop_child [OF True]
      using step by (simp split: sum.splits prod.splits)
  qed
qed

lemma nested_props_loop_append:
  "nested_props_loop rec (xs @ ys) acc v =
     (case nested_props_loop rec xs acc v of
        Inl e \<Rightarrow> Inl e
      | Inr (acc', v') \<Rightarrow> nested_props_loop rec ys acc' v')"
proof (induction xs arbitrary: acc v)
  case Nil
  then show ?case by simp
next
  case (Cons c rest)
  obtain n s where c: "c = (n, s)" by (cases c)
  show ?case
  proof (cases "node_anyOf s = []")
    case False
    with c show ?thesis
      by (simp add: Cons.IH split: sum.splits prod.splits)
  next
    case True
    show ?thesis
      unfolding c append_Cons nested_props_loop_child [OF True]
      by (simp add: Cons.IH split: sum.splits prod.splits)
  qed
qed













section \<open>Properties of the argument partition\<close>





section \<open>The claims\<close>




text \<open>
  C2 (as stated): a reference resolves to null exactly when it is on the current
  recursion path, so a reference that was resolved in one branch resolves again in a
  sibling branch. The resolver never removes a reference from \<open>visited\<close>, so the
  second sibling reference to \<open>Address\<close> is reported as a cycle: \<open>billing\<close> gets the
  properties of \<open>Address\<close>, \<open>shipping\<close> gets none.
\<close>

theorem sibling_reference_resolves_to_null:
  "resolve order_api order =
     Inr (Some (Schema ''inline''
            (Some [SchemaProperty ''billing'' (TypeStr ''object'') None
                     (Some [SchemaProperty ''street'' (TypeStr ''string'') None None None None None])
                     None None None,
                   SchemaProperty ''shipping'' (TypeStr ''object'') None None None None None])),
          {''#/components/schemas/Address''})"
  by (simp add: order_api_def order_def address_ref_def address_def string_node_def eval_defs)

text \<open>
  C3 (as stated): with \<open>max_depth = 10\<close> a schema nested exactly at depth 10 is
  resolved, and only one level deeper is cut. The guard is \<open>depth >= max_depth\<close>: the
  object resolved at depth 9 is null at depth 10, and an object below ten arrays
  (resolved at depth 10 from a root at depth 0) leaves the same result as no object at
  all.
\<close>

theorem nested_at_max_depth_counterexample:
  "process_schema Map.empty 10 10 {} leaf_object = Inr (None, {}) \<and>
   process_schema Map.empty 9 10 {} leaf_object =
     Inr (Some (Schema ''inline''
            (Some [SchemaProperty ''id'' (TypeStr ''string'') None None None None None])), {}) \<and>
   resolve Map.empty (nested_arrays 10 leaf_object) =
     resolve Map.empty (nested_arrays 9 (array_of None))"
  by (simp add: leaf_object_def string_node_def array_of_def eval_defs eval_nat_numeral)

text \<open>
  C3 (amended): a call at \<open>depth \<ge> max_depth\<close> returns null, raises nothing and
  leaves \<open>visited\<close> as it was, so only that branch is cut; a call at
  \<open>depth < max_depth\<close> (up to depth 9 for the default limit 10) is not cut by the
  guard: an inline schema without \<open>allOf\<close> never resolves to null there.
\<close>

theorem depth_guard:
  "(max_depth \<le> depth \<longrightarrow>
      process_schema api depth max_depth visited schema = Inr (None, visited)) \<and>
   (depth < max_depth \<longrightarrow> node_ref schema = None \<longrightarrow> node_allOf schema = [] \<longrightarrow>
      process_schema api depth max_depth visited schema \<noteq> Inr (None, v'))"
  by (auto simp: process_schema_guard process_schema_step enter_schema_def
        process_resolved_not_None)

theorem depth_guard_witness:
  "(10::nat) \<le> 10 \<and> process_schema Map.empty 10 10 {} leaf_object = Inr (None, {}) \<and>
   (9::nat) < 10 \<and> node_ref leaf_object = None \<and> node_allOf leaf_object = [] \<and>
   process_schema Map.empty 9 10 {} leaf_object \<noteq> Inr (None, {})"
  using depth_guard [where max_depth = 10 and depth = 10 and api = Map.empty
                       and visited = "{}" and schema = leaf_object]
        depth_guard [where max_depth = 10 and depth = 9 and api = Map.empty
                       and visited = "{}" and schema = leaf_object and v' = "{}"]
  by (simp add: leaf_object_def)

text \<open>
  C4: a schema whose \<open>allOf\<close> has two branches that resolve to schemas with the
  property lists \<open>ps1\<close> and \<open>ps2\<close> (not both empty) resolves to a schema with the
  single property \<open>"merged"\<close>, whose properties are \<open>ps1 @ ps2\<close> (the union of the
  names; pairwise distinct when the two sets are disjoint) and whose \<open>all_of\<close> keeps
  both branches. An \<open>allOf\<close> none of whose branches yields a property resolves to
  null.
\<close>

theorem allOf_merge:
  assumes "depth < max_depth"
    and "enter_schema api visited schema = Inr (Some (name, resolved, v0))"
  shows
   "(node_allOf resolved = [s1, s2] \<longrightarrow>
     process_schema api (depth + 1) max_depth v0 s1 = Inr (Some (Schema n1 (Some ps1)), v1) \<longrightarrow>
     process_schema api (depth + 1) max_depth v1 s2 = Inr (Some (Schema n2 (Some ps2)), v2) \<longrightarrow>
     ps1 @ ps2 \<noteq> [] \<longrightarrow>
       process_schema api depth max_depth visited schema =
         Inr (Some (Schema name
                (Some [SchemaProperty ''merged'' (TypeStr ''object'') None (Some (ps1 @ ps2))
                         (node_description resolved) None
                         (Some [SchemaProperty n1 (TypeStr ''object'') None (Some ps1)
                                  (node_description s1) None None,
                                SchemaProperty n2 (TypeStr ''object'') None (Some ps2)
                                  (node_description s2) None None])])), v2) \<and>
       set (map sp_name (ps1 @ ps2)) = set (map sp_name ps1) \<union> set (map sp_name ps2) \<and>
       (distinct (map sp_name ps1) \<and> distinct (map sp_name ps2) \<and>
        set (map sp_name ps1) \<inter> set (map sp_name ps2) = {} \<longrightarrow>
          distinct (map sp_name (ps1 @ ps2)))) \<and>
    (node_allOf resolved \<noteq> [] \<longrightarrow>
     resolve_each (process_schema api (depth + 1) max_depth) (node_allOf resolved) v0
       = Inr (rs, v') \<longrightarrow>
     (\<forall>r \<in> set rs. branch_props r = []) \<longrightarrow>
       process_schema api depth max_depth visited schema = Inr (None, v'))"
proof (intro conjI impI)
  assume a: "node_allOf resolved = [s1, s2]"
    and r1: "process_schema api (depth + 1) max_depth v0 s1 = Inr (Some (Schema n1 (Some ps1)), v1)"
    and r2: "process_schema api (depth + 1) max_depth v1 s2 = Inr (Some (Schema n2 (Some ps2)), v2)"
    and ne: "ps1 @ ps2 \<noteq> []"
  from a r1 r2 ne assms
  show "process_schema api depth max_depth visited schema =
         Inr (Some (Schema name
                (Some [SchemaProperty ''merged'' (TypeStr ''object'') None (Some (ps1 @ ps2))
                         (node_description resolved) None
                         (Some [SchemaProperty n1 (TypeStr ''object'') None (Some ps1)
                                  (node_description s1) None None,
                                SchemaProperty n2 (TypeStr ''object'') None (Some ps2)
                                  (node_description s2) None None])])), v2)"
    by (simp add: process_schema_step process_resolved_def extend_opt_def)
next
  show "set (map sp_name (ps1 @ ps2)) = set (map sp_name ps1) \<union> set (map sp_name ps2)"
    by simp
next
  assume "distinct (map sp_name ps1) \<and> distinct (map sp_name ps2) \<and>
        set (map sp_name ps1) \<inter> set (map sp_name ps2) = {}"
  then show "distinct (map sp_name (ps1 @ ps2))" by simp
next
  assume ne: "node_allOf resolved \<noteq> []"
    and rs: "resolve_each (process_schema api (depth + 1) max_depth) (node_allOf resolved) v0
               = Inr (rs, v')"
    and none: "\<forall>r \<in> set rs. branch_props r = []"
  from none have "concat (map branch_props rs) = []" by simp
  with ne rs assms show "process_schema api depth max_depth visited schema = Inr (None, v')"
    by (simp add: process_schema_step process_resolved_def allOf_loop_resolve_each)
qed

theorem allOf_merge_witness:
  "resolve Map.empty all_of_ab =
     Inr (Some (Schema ''inline''
            (Some [SchemaProperty ''merged'' (TypeStr ''object'') None
                     (Some [SchemaProperty ''a'' (TypeStr ''string'') None None None None None,
                            SchemaProperty ''b'' (TypeStr ''string'') None None None None None])
                     (Some ''both'') None
                     (Some [SchemaProperty ''inline'' (TypeStr ''object'') None
                              (Some [SchemaProperty ''a'' (TypeStr ''string'') None None None None None])
                              (Some ''first'') None None,
                            SchemaProperty ''inline'' (TypeStr ''object'') None
                              (Some [SchemaProperty ''b'' (TypeStr ''string'') None None None None None])
                              None None None])])), {}) \<and>
   resolve Map.empty all_of_empty = Inr (None, {})"
proof -
  have d: "(0::nat) < 10" by simp
  have e1: "enter_schema Map.empty {} all_of_ab = Inr (Some (''inline'', all_of_ab, {}))"
    by (simp add: enter_schema_def all_of_ab_def)
  have e2: "enter_schema Map.empty {} all_of_empty = Inr (Some (''inline'', all_of_empty, {}))"
    by (simp add: enter_schema_def all_of_empty_def)
  have a: "process_schema Map.empty (0 + 1) 10 {} object_a =
      Inr (Some (Schema ''inline''
             (Some [SchemaProperty ''a'' (TypeStr ''string'') None None None None None])), {})"
    by (simp add: object_a_def string_node_def eval_defs)
  have b: "process_schema Map.empty (0 + 1) 10 {} object_b =
      Inr (Some (Schema ''inline''
             (Some [SchemaProperty ''b'' (TypeStr ''string'') None None None None None])), {})"
    by (simp add: object_b_def string_node_def eval_defs)
  have c: "resolve_each (process_schema Map.empty (0 + 1) 10) (node_allOf all_of_empty) {} =
      Inr ([Some (Schema ''inline'' (Some [])), Some (Schema ''inline'' (Some []))], {})"
    by (simp add: all_of_empty_def empty_object_def eval_defs)
  have first: "resolve Map.empty all_of_ab =
     Inr (Some (Schema ''inline''
            (Some [SchemaProperty ''merged'' (TypeStr ''object'') None
                     (Some ([SchemaProperty ''a'' (TypeStr ''string'') None None None None None] @
                            [SchemaProperty ''b'' (TypeStr ''string'') None None None None None]))
                     (node_description all_of_ab) None
                     (Some [SchemaProperty ''inline'' (TypeStr ''object'') None
                              (Some [SchemaProperty ''a'' (TypeStr ''string'') None None None None None])
                              (node_description object_a) None None,
                            SchemaProperty ''inline'' (TypeStr ''object'') None
                              (Some [SchemaProperty ''b'' (TypeStr ''string'') None None None None None])
                              (node_description object_b) None None])])), {})"
    unfolding resolve_def
    using allOf_merge [OF d e1, where ?s1.0 = object_a and ?s2.0 = object_b] a b
    by (simp add: all_of_ab_def)
  have second: "resolve Map.empty all_of_empty = Inr (None, {})"
    unfolding resolve_def
    using allOf_merge [OF d e2, where rs = "[Some (Schema ''inline'' (Some [])), Some (Schema ''inline'' (Some []))]" and v' = "{}"] c
    by (simp add: all_of_empty_def branch_props_simps)
  from first second show ?thesis
    by (simp add: all_of_ab_def object_a_def object_b_def)
qed

text \<open>
  C5: a schema with \<open>anyOf\<close> (and no \<open>allOf\<close>, which is tested first) that passes the
  depth guard and the cycle check, and whose branches raise no lookup error, resolves
  to a schema (never null) with the single property \<open>"any_of"\<close>. Its type is the list
  of the declared types of the branches, or \<open>"object"\<close> when there is none; its
  \<open>any_of\<close> holds the properties of the branches that resolved (a branch that
  resolved to null adds nothing), and is null when there are no such properties.
\<close>

theorem anyOf_union:
  assumes "depth < max_depth"
    and "enter_schema api visited schema = Inr (Some (name, resolved, v0))"
    and "node_allOf resolved = []" and "node_anyOf resolved \<noteq> []"
    and "resolve_each (process_schema api (depth + 1) max_depth) (node_anyOf resolved) v0
           = Inr (rs, v')"
  shows "process_schema api depth max_depth visited schema =
           Inr (Some (Schema name
                  (Some [SchemaProperty ''any_of'' (union_type (node_anyOf resolved)) None None
                           (node_description resolved)
                           (if concat (map branch_props rs) = [] then None
                            else Some (concat (map branch_props rs)))
                           None])), v')"
  using assms
  by (simp add: process_schema_step process_resolved_def anyOf_loop_resolve_each union_type_def)

theorem anyOf_union_witness:
  "resolve Map.empty any_of_object_or_string =
     Inr (Some (Schema ''inline''
            (Some [SchemaProperty ''any_of'' (TypeList [''object'', ''string'']) None None
                     (Some ''either'')
                     (Some [SchemaProperty ''a'' (TypeStr ''string'') None None None None None])
                     None])), {}) \<and>
   process_schema Map.empty 9 10 {} any_of_untyped =
     Inr (Some (Schema ''inline''
            (Some [SchemaProperty ''any_of'' (TypeStr ''object'') None None None None None])), {})"
proof -
  have d1: "(0::nat) < 10" and d2: "(9::nat) < 10" by simp_all
  have e1: "enter_schema Map.empty {} any_of_object_or_string =
      Inr (Some (''inline'', any_of_object_or_string, {}))"
    by (simp add: enter_schema_def any_of_object_or_string_def)
  have e2: "enter_schema Map.empty {} any_of_untyped = Inr (Some (''inline'', any_of_untyped, {}))"
    by (simp add: enter_schema_def any_of_untyped_def)
  have a1: "node_allOf any_of_object_or_string = []" and n1: "node_anyOf any_of_object_or_string \<noteq> []"
    by (simp_all add: any_of_object_or_string_def)
  have a2: "node_allOf any_of_untyped = []" and n2: "node_anyOf any_of_untyped \<noteq> []"
    by (simp_all add: any_of_untyped_def)
  have r1: "resolve_each (process_schema Map.empty (0 + 1) 10) (node_anyOf any_of_object_or_string) {} =
      Inr ([Some (Schema ''inline''
                   (Some [SchemaProperty ''a'' (TypeStr ''string'') None None None None None])),
            Some (Schema ''inline'' (Some []))], {})"
    by (simp add: any_of_object_or_string_def object_a_def string_node_def eval_defs)
  have r2: "resolve_each (process_schema Map.empty (9 + 1) 10) (node_anyOf any_of_untyped) {} =
      Inr ([None], {})"
    by (simp add: any_of_untyped_def untyped_node_def eval_defs)
  show ?thesis
    unfolding resolve_def
    using anyOf_union [OF d1 e1 a1 n1 r1] anyOf_union [OF d2 e2 a2 n2 r2]
    by (simp add: any_of_object_or_string_def any_of_untyped_def untyped_node_def object_a_def
          string_node_def union_type_def declared_types_def branch_props_simps)
qed




text \<open>
  C7: a parameter whose schema declares an enum (a list with at least one value, which
  is what \<open>if param.schema_.enum:\<close> accepts) is processed with \<open>required = True\<close> and
  keeps its enum; the description of its tool parameter is the original description
  followed by \<open>" Options: "\<close> and the values separated by \<open>", "\<close>, cut to 97
  characters and \<open>"..."\<close> when that text is longer than 100 characters, so it never
  exceeds 100 characters. The parameter with the 20 options \<open>option0\<close> ... \<open>option19\<close>
  of the test suite is the witness.
\<close>

theorem enum_parameter_required_and_described:
  assumes "rp_schema_enum param = Some enum" and "enum \<noteq> []"
    and "rp_description param = Some d"
  shows
   "p_required (process_parameter param) \<and>
    p_enum (process_parameter param) = Some enum \<and>
    length (tp_description (query_tool_parameter render (process_parameter param))) \<le> 100 \<and>
    (length (d @ '' Options: '' @ join_comma (map render enum)) \<le> 100 \<longrightarrow>
       tp_description (query_tool_parameter render (process_parameter param)) =
         d @ '' Options: '' @ join_comma (map render enum)) \<and>
    (100 < length (d @ '' Options: '' @ join_comma (map render enum)) \<longrightarrow>
       tp_description (query_tool_parameter render (process_parameter param)) =
         take 97 (d @ '' Options: '' @ join_comma (map render enum)) @ ''...'')"
proof -
  let ?full = "d @ '' Options: '' @ join_comma (map render enum)"
  from assms
  have desc: "tp_description (query_tool_parameter render (process_parameter param)) =
      truncate_description ?full"
    by (simp add: process_parameter_def enum_truthy_def query_tool_parameter_def
          parameter_description_def enum_description_def)
  from assms have req: "p_required (process_parameter param)"
    and enum: "p_enum (process_parameter param) = Some enum"
    by (simp_all add: process_parameter_def enum_truthy_def)
  have len: "length (truncate_description ?full) \<le> 100"
    by (cases "100 < length ?full") (simp_all add: truncate_description_def)
  have short: "length ?full \<le> 100 \<longrightarrow> truncate_description ?full = ?full"
    and long: "100 < length ?full \<longrightarrow> truncate_description ?full = take 97 ?full @ ''...''"
    by (simp_all add: truncate_description_def)
  from req enum len short long show ?thesis
    unfolding desc by blast
qed

theorem enum_parameter_required_and_described_witness:
  "p_required (process_parameter long_enum_param) \<and>
   tp_description (query_tool_parameter string_text (process_parameter long_enum_param)) =
     ''A parameter with many enum options Options: option0, option1, option2, option3, option4, option5,...'' \<and>
   length (tp_description (query_tool_parameter string_text (process_parameter long_enum_param))) = 100 \<and>
   take 60 (tp_description (query_tool_parameter string_text (process_parameter long_enum_param))) =
     ''A parameter with many enum options Options: option0, option1'' \<and>
   drop 97 (tp_description (query_tool_parameter string_text (process_parameter long_enum_param))) =
     ''...''"
proof -
  have e: "rp_schema_enum long_enum_param = Some long_enum"
    and d: "rp_description long_enum_param = Some ''A parameter with many enum options''"
    by (simp_all add: long_enum_param_def)
  have n: "long_enum \<noteq> []" by (simp add: long_enum_def)
  have l: "100 < length (''A parameter with many enum options'' @ '' Options: '' @
             join_comma (map string_text long_enum))"
    by (simp add: long_enum_def)
  from enum_parameter_required_and_described [OF e n d, of string_text] l
  have r: "p_required (process_parameter long_enum_param)"
    and t: "tp_description (query_tool_parameter string_text (process_parameter long_enum_param)) =
         take 97 (''A parameter with many enum options'' @ '' Options: '' @
                  join_comma (map string_text long_enum)) @ ''...''"
    by simp_all
  have v: "take 97 (''A parameter with many enum options'' @ '' Options: '' @
                  join_comma (map string_text long_enum)) @ ''...'' =
     ''A parameter with many enum options Options: option0, option1, option2, option3, option4, option5,...''"
    by (simp add: long_enum_def)
  from r t v show ?thesis by simp
qed



text \<open>
  C9 (as stated): an empty-array default of the source schema is kept as an empty-list
  default. The guard \<open>if param.schema_.default:\<close> tests the truth value, and \<open>[]\<close> is
  falsy: the processed parameter has no default.
\<close>

theorem empty_array_default_dropped:
  "rp_schema_default array_param = Some (PyList []) \<and>
   p_default (process_parameter array_param) = None"
  by (simp add: array_param_def process_parameter_def default_truthy_def)

text \<open>
  C10: in the plain nested-object branch of an object property (no \<open>$ref\<close>, \<open>anyOf\<close>,
  \<open>allOf\<close> or \<open>additionalProperties\<close>), a nested child without \<open>anyOf\<close> contributes,
  at its own position among the nested properties, exactly \<open>first_renamed\<close> of its
  recursive result: the first property of the resolved child schema with the child's
  name, and nothing for a null result or a schema without properties. Whatever else
  the resolved child schema holds is not kept.
\<close>

theorem nested_child_first_property:
  assumes "type_or_object (node_type prop_schema) = ''object''"
    and "node_ref prop_schema = None" and "node_anyOf prop_schema = []"
    and "node_allOf prop_schema = []" and "\<not> node_additionalProperties prop_schema"
    and "node_properties prop_schema = before @ (nested_name, nested_schema) # after"
    and "node_anyOf nested_schema = []"
    and "process_property api rec prop_name prop_schema visited = Inr (prop, visited')"
  shows "\<exists>ps1 v1 r v2 ps2.
           nested_props_loop rec before [] visited = Inr (ps1, v1) \<and>
           rec v1 nested_schema = Inr (r, v2) \<and>
           nested_props_loop rec after [] v2 = Inr (ps2, visited') \<and>
           sp_properties prop = Some (ps1 @ first_renamed nested_name r @ ps2)"
proof -
  from assms obtain nested where nested: "sp_properties prop = Some nested"
    and loop: "nested_props_loop rec (before @ (nested_name, nested_schema) # after) [] visited
      = Inr (nested, visited')"
    by (auto simp: process_property_def split: sum.splits)
  from loop obtain ps1 v1 where b: "nested_props_loop rec before [] visited = Inr (ps1, v1)"
    and rest1: "nested_props_loop rec ((nested_name, nested_schema) # after) ps1 v1
                  = Inr (nested, visited')"
    by (cases "nested_props_loop rec before [] visited")
       (auto simp: nested_props_loop_append)
  from rest1 obtain r v2 where r: "rec v1 nested_schema = Inr (r, v2)"
    and rest2: "nested_props_loop rec after (ps1 @ first_renamed nested_name r) v2
                  = Inr (nested, visited')"
    unfolding nested_props_loop_child [OF assms(7)]
    by (cases "rec v1 nested_schema") auto
  from rest2 obtain ps2 where a: "nested_props_loop rec after [] v2 = Inr (ps2, visited')"
    and eq: "nested = (ps1 @ first_renamed nested_name r) @ ps2"
    using nested_props_loop_acc [of rec after "ps1 @ first_renamed nested_name r" v2]
    by (cases "nested_props_loop rec after [] v2") auto
  from b r a eq nested show ?thesis by auto
qed

theorem nested_child_first_property_witness:
  "process_property Map.empty (process_schema Map.empty 1 10) ''parent'' parent_schema {} =
     Inr (SchemaProperty ''parent'' (TypeStr ''object'') None
            (Some [SchemaProperty ''first'' (TypeStr ''string'') None None None None None])
            None None None, {}) \<and>
   process_schema Map.empty 1 10 {} child_two =
     Inr (Some (Schema ''inline''
            (Some [SchemaProperty ''x'' (TypeStr ''string'') None None None None None,
                   SchemaProperty ''y'' (TypeStr ''string'') None None None None None])), {}) \<and>
   first_renamed ''first''
     (Some (Schema ''inline''
        (Some [SchemaProperty ''x'' (TypeStr ''string'') None None None None None,
               SchemaProperty ''y'' (TypeStr ''string'') None None None None None]))) =
     [SchemaProperty ''first'' (TypeStr ''string'') None None None None None] \<and>
   process_schema Map.empty 1 10 {} empty_object = Inr (Some (Schema ''inline'' (Some [])), {}) \<and>
   first_renamed ''second'' (Some (Schema ''inline'' (Some []))) = []"
proof -
  have p: "process_property Map.empty (process_schema Map.empty 1 10) ''parent'' parent_schema {} =
     Inr (SchemaProperty ''parent'' (TypeStr ''object'') None
            (Some [SchemaProperty ''first'' (TypeStr ''string'') None None None None None])
            None None None, {})"
    by (simp add: parent_schema_def child_two_def empty_object_def string_node_def eval_defs)
  have h: "node_properties parent_schema = [] @ (''first'', child_two) # [(''second'', empty_object), (''third'', string_node)]"
    by (simp add: parent_schema_def)
  have "\<exists>ps1 v1 r v2 ps2.
           nested_props_loop (process_schema Map.empty 1 10) [] [] {} = Inr (ps1, v1) \<and>
           process_schema Map.empty 1 10 v1 child_two = Inr (r, v2) \<and>
           nested_props_loop (process_schema Map.empty 1 10)
             [(''second'', empty_object), (''third'', string_node)] [] v2 = Inr (ps2, {}) \<and>
           sp_properties (SchemaProperty ''parent'' (TypeStr ''object'') None
            (Some [SchemaProperty ''first'' (TypeStr ''string'') None None None None None])
            None None None) = Some (ps1 @ first_renamed ''first'' r @ ps2)"
    by (rule nested_child_first_property [OF _ _ _ _ _ h _ p])
       (simp_all add: parent_schema_def child_two_def type_or_object_def)
  then show ?thesis
    using p
    by (simp add: child_two_def empty_object_def string_node_def eval_defs first_renamed_simps)
qed

end
